theory Spec2Isabelle
  imports Complex_Main "HOL-Library.Char_ord" "HOL-Library.List_Lexorder" "HOL-Library.Multiset"
begin

section \<open>The chunk directory of sdrrewind.py\<close>

text \<open>
  The capture directory holds, for each chunk, a raw-sample file \<open><stem>.iq\<close> and a
  descriptor \<open><stem>.json\<close>. Both \<open>prune_seconds\<close> and \<open>extract_slice\<close> start from
  \<open>outdir.glob("*.json")\<close> and reach the raw file through \<open>with_suffix('.iq')\<close>, so the
  directory is modelled as the list of its descriptor files, in the order in which the
  operating system enumerates them, and a map from stems to the bytes of the raw files.
  Stems are taken to be non-empty (for a file named \<open>.json\<close> alone, pathlib takes the whole
  name as the stem).

  Numbers: Python floats, \<open>datetime\<close> and \<open>timedelta\<close> values are modelled as exact
  rationals, in seconds; rounding of floats, the microsecond resolution of \<open>timedelta\<close>
  and the finite range of \<open>datetime\<close> are not modelled.

  The text of a descriptor is not modelled either. A descriptor is represented by what the
  library calls of the source make of it:
  \<^item> \<open>Unreadable\<close>: \<open>read_text\<close> or \<open>json.loads\<close> raises, or the value is not an object
    (so that \<open>meta.get\<close> and \<open>meta[...]\<close> raise);
  \<^item> \<open>Parsed m\<close>: a JSON object, with one field of \<open>m\<close> for each key the source reads.
\<close>

type_synonym stem = string
type_synonym bytes = string

text \<open>
  \<open>datetime.fromisoformat(meta["timestamp_utc"].replace('Z', '+00:00'))\<close> gives an aware
  datetime when the string carries \<open>Z\<close> or an offset, and a naive one when it carries none.
  The instant is kept in seconds since the epoch.
\<close>

datatype timestamp = Aware rat | Naive rat

text \<open>
  \<open>float(meta.get("duration_s", 0))\<close>: the key may be absent (the default 0 is used), hold a
  value that \<open>float\<close> converts, or hold one on which \<open>float\<close> raises.
\<close>

datatype dur_field = DurAbsent | DurValue rat | DurInvalid

text \<open>
  The keys of a descriptor object. \<open>None\<close> is an absent key; for \<open>timestamp_utc\<close> it also
  stands for a value that is not a string or that \<open>fromisoformat\<close> rejects. The capture
  parameters are integers in every descriptor the capture loop writes; the source passes
  them through unchanged.
\<close>

record meta =
  center_freq_hz :: "int option"
  samp_rate_hz :: "int option"
  timestamp_utc :: "timestamp option"
  duration_s :: dur_field
  dtype :: "string option"

datatype descriptor = Unreadable | Parsed meta

record chunk_dir =
  descs :: "(stem \<times> descriptor) list"
  raws :: "stem \<rightharpoonup> bytes"

text \<open>File names in a directory are unique.\<close>

definition wf_dir :: "chunk_dir \<Rightarrow> bool" where
  "wf_dir d = distinct (map fst (descs d))"

section \<open>Retention: \<open>prune_seconds\<close>\<close>

text \<open>The name of a descriptor file; \<open>sorted(outdir.glob("*.json"))\<close> orders paths by it.\<close>

definition json_name :: "stem \<Rightarrow> string" where
  "json_name s = s @ ''.json''"

text \<open>
  Lines 102 to 106: the duration the loop adds for a descriptor. Every exception of the
  \<open>try\<close> block gives 0.
\<close>

fun prune_dur :: "descriptor \<Rightarrow> rat" where
  "prune_dur Unreadable = 0"
| "prune_dur (Parsed m) =
     (case duration_s m of DurAbsent \<Rightarrow> 0 | DurValue x \<Rightarrow> x | DurInvalid \<Rightarrow> 0)"

text \<open>
  Lines 101 to 110: the loop over \<open>reversed(files)\<close>, with its two accumulators (\<open>tot\<close> is
  the source's \<open>total\<close>). The descriptor is appended before the test, so the loop keeps
  the file at which the total reaches \<open>buffer_sec\<close>, and a non-empty directory always
  keeps one file.
\<close>

fun prune_loop :: "int \<Rightarrow> (stem \<times> descriptor) list \<Rightarrow> rat \<Rightarrow> stem list \<Rightarrow> stem list" where
  "prune_loop buffer_sec [] tot kept = kept"
| "prune_loop buffer_sec ((s, desc) # ps) tot kept =
     (let tot' = tot + prune_dur desc;
          kept' = kept @ [s]
      in if tot' \<ge> of_int buffer_sec then kept' else prune_loop buffer_sec ps tot' kept')"

text \<open>
  Lines 116 to 121: both files of a chunk are unlinked; a file that is not there is
  passed over (\<open>FileNotFoundError\<close> is caught).
\<close>

definition unlink_chunk :: "stem \<Rightarrow> chunk_dir \<Rightarrow> chunk_dir" where
  "unlink_chunk s d =
     d\<lparr>descs := filter (\<lambda>(s', _). s' \<noteq> s) (descs d), raws := (raws d)(s := None)\<rparr>"

definition sorted_files :: "chunk_dir \<Rightarrow> (stem \<times> descriptor) list" where
  "sorted_files d = sort_key (\<lambda>(s, _). json_name s) (descs d)"

definition kept_stems :: "chunk_dir \<Rightarrow> int \<Rightarrow> stem list" where
  "kept_stems d buffer_sec = prune_loop buffer_sec (rev (sorted_files d)) 0 []"

definition prune_seconds :: "chunk_dir \<Rightarrow> int \<Rightarrow> chunk_dir" where
  "prune_seconds d buffer_sec =
     (let files = sorted_files d;
          keep_set = set (kept_stems d buffer_sec)
      in fold (\<lambda>(s, _) d'. if s \<notin> keep_set then unlink_chunk s d' else d') files d)"


section \<open>Extraction: \<open>extract_slice\<close>\<close>

text \<open>
  The exceptions the source can end with. \<open>sys.exit(n)\<close> raises \<open>SystemExit n\<close>; every other
  exception is uncaught and ends the interpreter with status 1.
\<close>

datatype error = SystemExit int | FileNotFoundError | KeyError string | TypeError | ValueError


text \<open>
  Lines 132 to 138, the \<open>try\<close> block: the timestamp and the duration of a descriptor, or
  \<open>None\<close> when any of its calls raises (the loop then goes on to the next file).
\<close>

fun parse_chunk :: "descriptor \<Rightarrow> (timestamp \<times> rat) option" where
  "parse_chunk Unreadable = None"
| "parse_chunk (Parsed m) =
     (case timestamp_utc m of
        None \<Rightarrow> None
      | Some t \<Rightarrow>
          (case duration_s m of
             DurAbsent \<Rightarrow> Some (t, 0)
           | DurValue x \<Rightarrow> Some (t, x)
           | DurInvalid \<Rightarrow> None))"

text \<open>
  Lines 131 to 140. The comparison of line 139 stands outside the \<open>try\<close> block: Python
  raises \<open>TypeError\<close> when a naive datetime is compared with the aware \<open>end_time\<close>.
\<close>

fun scan_loop ::
  "rat \<Rightarrow> rat \<Rightarrow> (stem \<times> descriptor) list \<Rightarrow> (rat \<times> rat \<times> stem) list
     \<Rightarrow> error + (rat \<times> rat \<times> stem) list" where
  "scan_loop start_time end_time [] metas = Inr metas"
| "scan_loop start_time end_time ((s, desc) # ps) metas =
     (case parse_chunk desc of
        None \<Rightarrow> scan_loop start_time end_time ps metas
      | Some (Naive t, dur) \<Rightarrow> Inl TypeError
      | Some (Aware t, dur) \<Rightarrow>
          if t \<le> end_time \<and> t + dur \<ge> start_time
          then scan_loop start_time end_time ps (metas @ [(t, dur, s)])
          else scan_loop start_time end_time ps metas)"

text \<open>
  Lines 147 to 150: the raw files are appended to the output in the order of \<open>metas\<close>.
  \<open>read_bytes\<close> raises \<open>FileNotFoundError\<close> on a missing raw file; the output file then
  holds what was written before.
\<close>

fun write_loop ::
  "(stem \<rightharpoonup> bytes) \<Rightarrow> (rat \<times> rat \<times> stem) list \<Rightarrow> bytes \<Rightarrow> (error + unit) \<times> bytes" where
  "write_loop iq [] fo = (Inr (), fo)"
| "write_loop iq ((t, dur, s) # ms) fo =
     (case iq s of
        None \<Rightarrow> (Inl FileNotFoundError, fo)
      | Some b \<Rightarrow> write_loop iq ms (fo @ b))"

text \<open>The descriptor of an extraction result (lines 153 to 161).\<close>

record combined =
  out_center_freq_hz :: int
  out_samp_rate_hz :: int
  out_timestamp_utc :: rat
  out_start_rel_s :: rat
  out_duration_s :: rat

text \<open>
  What one call of \<open>extract_slice\<close> leaves behind: how it ended, the bytes of \<open>outfile\<close>
  (\<open>None\<close> when the call did not open it) and the descriptor written beside it (\<open>None\<close>
  when the call did not write it). \<open>outfile\<close> is taken not to be a file of a chunk of
  the directory that is read.
\<close>

record extraction =
  status :: "error + unit"
  out_file :: "bytes option"
  out_json :: "combined option"

text \<open>Lines 130 to 140 with the window of lines 126 to 128 resolved.\<close>

definition selected :: "chunk_dir \<Rightarrow> rat \<Rightarrow> rat \<Rightarrow> error + (rat \<times> rat \<times> stem) list" where
  "selected d start_time end_time = scan_loop start_time end_time (descs d) []"

text \<open>
  \<open>now\<close> is the clock reading of line 126, \<open>now_written\<close> the one of line 156.
  \<open>metas.sort(key=lambda x: x[0])\<close> is a stable sort on the start time, as \<open>sort_key fst\<close>
  is. Line 152 reads the descriptor of the first chunk again; it is looked up in the
  directory (the two last error cases need a file that changed since line 133).
\<close>

definition extract_slice :: "chunk_dir \<Rightarrow> rat \<Rightarrow> rat \<Rightarrow> rat \<Rightarrow> rat \<Rightarrow> extraction" where
  "extract_slice d now start_rel_s dur_s now_written =
     (let start_time = now + start_rel_s;
          end_time = start_time + dur_s
      in case selected d start_time end_time of
           Inl e \<Rightarrow> \<lparr>status = Inl e, out_file = None, out_json = None\<rparr>
         | Inr found \<Rightarrow>
             (case sort_key fst found of
                [] \<Rightarrow> \<lparr>status = Inl (SystemExit 1), out_file = None, out_json = None\<rparr>
              | (t1, dur1, s1) # rest \<Rightarrow>
                  (case write_loop (raws d) ((t1, dur1, s1) # rest) [] of
                     (Inl e, fo) \<Rightarrow> \<lparr>status = Inl e, out_file = Some fo, out_json = None\<rparr>
                   | (Inr u, fo) \<Rightarrow>
                       (case map_of (descs d) s1 of
                          Some (Parsed first_meta) \<Rightarrow>
                            (case center_freq_hz first_meta of
                               None \<Rightarrow> \<lparr>status = Inl (KeyError ''center_freq_hz''),
                                          out_file = Some fo, out_json = None\<rparr>
                             | Some f \<Rightarrow>
                                 (case samp_rate_hz first_meta of
                                    None \<Rightarrow> \<lparr>status = Inl (KeyError ''samp_rate_hz''),
                                               out_file = Some fo, out_json = None\<rparr>
                                  | Some r \<Rightarrow>
                                      \<lparr>status = Inr (), out_file = Some fo,
                                       out_json = Some \<lparr>out_center_freq_hz = f,
                                         out_samp_rate_hz = r,
                                         out_timestamp_utc = now_written,
                                         out_start_rel_s = start_rel_s,
                                         out_duration_s = dur_s\<rparr>\<rparr>))
                        | Some Unreadable \<Rightarrow>
                            \<lparr>status = Inl ValueError, out_file = Some fo, out_json = None\<rparr>
                        | None \<Rightarrow>
                            \<lparr>status = Inl FileNotFoundError, out_file = Some fo,
                             out_json = None\<rparr>))))"

section \<open>Capture: one iteration of \<open>capture_loop\<close>\<close>

text \<open>\<open>int(x)\<close> on a float truncates towards zero.\<close>

definition py_int :: "rat \<Rightarrow> int" where
  "py_int x = (if x \<ge> 0 then \<lfloor>x\<rfloor> else \<lceil>x\<rceil>)"

text \<open>The decimal numeral of an integer, as the f-string of line 74 prints it.\<close>

fun decimal :: "nat \<Rightarrow> string" where
  "decimal n =
     (if n < 10 then [''0123456789'' ! n]
      else decimal (n div 10) @ [''0123456789'' ! (n mod 10)])"

declare decimal.simps [simp del]

definition str_int :: "int \<Rightarrow> string" where
  "str_int i = (if i < 0 then CHR ''-'' # decimal (nat (- i)) else decimal (nat i))"

text \<open>
  Lines 82 and 83: the raw file, then the descriptor. A file of the same name is
  overwritten; a new descriptor is enumerated last.
\<close>

definition write_chunk :: "stem \<Rightarrow> bytes \<Rightarrow> descriptor \<Rightarrow> chunk_dir \<Rightarrow> chunk_dir" where
  "write_chunk s iq desc d =
     d\<lparr>raws := (raws d)(s \<mapsto> iq),
       descs := (if s \<in> fst ` set (descs d)
                 then map (\<lambda>(s', x). if s' = s then (s', desc) else (s', x)) (descs d)
                 else descs d @ [(s, desc)])\<rparr>"

text \<open>
  The wall clock is part of the state. The device is given by what one call of
  \<open>read_samples\<close> does: it returns the bytes \<open>iq\<close> after \<open>block\<close> seconds. Lines 70 to
  90: \<open>t0\<close> is read before the samples are requested, \<open>utcnow_iso()\<close> of line 78 after
  they have arrived.
\<close>

record world =
  clock :: rat
  outdir :: chunk_dir

definition capture_iteration ::
  "rat \<Rightarrow> rat \<Rightarrow> int \<Rightarrow> int \<Rightarrow> rat \<Rightarrow> bytes \<Rightarrow> world \<Rightarrow> world" where
  "capture_iteration freq_hz samp_rate buffer_sec chunk_sec block iq w =
     (let t0 = clock w;
          now = t0 + block;
          ts = py_int (t0 * 1000);
          m = \<lparr>center_freq_hz = Some (py_int freq_hz),
               samp_rate_hz = Some (py_int samp_rate),
               timestamp_utc = Some (Aware now),
               duration_s = DurValue (of_int chunk_sec),
               dtype = Some ''complex64''\<rparr>;
          d1 = write_chunk (str_int ts) iq (Parsed m) (outdir w);
          d2 = prune_seconds d1 buffer_sec;
          elapsed = now - t0;
          sleep_left = of_int chunk_sec - elapsed
      in \<lparr>clock = (if sleep_left > 0 then now + sleep_left else now), outdir = d2\<rparr>)"

section \<open>Notions used in the statements and proofs\<close>

text \<open>
  The order in which \<open>prune_seconds\<close> visits the descriptors (\<open>reversed(files)\<close>), the
  files it has visited when the loop ends, and the sum of the durations it reads.
\<close>

definition visit_order :: "chunk_dir \<Rightarrow> (stem \<times> descriptor) list" where
  "visit_order d = rev (sorted_files d)"


definition durs :: "(stem \<times> descriptor) list \<Rightarrow> rat" where
  "durs ps = sum_list (map (\<lambda>p. prune_dur (snd p)) ps)"

text \<open>
  The three outcomes of one round of the loop of \<open>extract_slice\<close>: the test of line 139
  on a descriptor, the tuple line 140 appends, and the descriptors on which line 139 raises.
\<close>

fun overlapping :: "rat \<Rightarrow> rat \<Rightarrow> stem \<times> descriptor \<Rightarrow> bool" where
  "overlapping start_time end_time (s, desc) =
     (case parse_chunk desc of
        Some (Aware t, dur) \<Rightarrow> t \<le> end_time \<and> t + dur \<ge> start_time
      | _ \<Rightarrow> False)"

fun entry :: "stem \<times> descriptor \<Rightarrow> rat \<times> rat \<times> stem" where
  "entry (s, desc) =
     (case parse_chunk desc of
        Some (Aware t, dur) \<Rightarrow> (t, dur, s)
      | Some (Naive t, dur) \<Rightarrow> (t, dur, s)
      | None \<Rightarrow> (0, 0, s))"

fun naive :: "stem \<times> descriptor \<Rightarrow> bool" where
  "naive (s, desc) = (case parse_chunk desc of Some (Naive t, dur) \<Rightarrow> True | _ \<Rightarrow> False)"

text \<open>The bytes of the raw file of a selected chunk, and whether the file is there.\<close>

definition raw_of :: "(stem \<rightharpoonup> bytes) \<Rightarrow> rat \<times> rat \<times> stem \<Rightarrow> bytes" where
  "raw_of iq x = (case iq (snd (snd x)) of None \<Rightarrow> [] | Some b \<Rightarrow> b)"

definition has_raw :: "(stem \<rightharpoonup> bytes) \<Rightarrow> rat \<times> rat \<times> stem \<Rightarrow> bool" where
  "has_raw iq x = (iq (snd (snd x)) \<noteq> None)"



subsection \<open>Example directories\<close>

text \<open>A descriptor as the capture loop writes it.\<close>

definition chunk :: "rat \<Rightarrow> rat \<Rightarrow> int \<Rightarrow> descriptor" where
  "chunk t x f =
     Parsed \<lparr>center_freq_hz = Some f, samp_rate_hz = Some 2400000,
             timestamp_utc = Some (Aware t), duration_s = DurValue x,
             dtype = Some ''complex64''\<rparr>"

text \<open>
  Four chunks of 5 seconds starting at 0, 5, 10 and 15 seconds, enumerated in no
  particular order; the device was retuned after the first.
\<close>

definition dir_ex :: chunk_dir where
  "dir_ex =
     \<lparr>descs = [(''15000'', chunk 15 5 101), (''10000'', chunk 10 5 101),
               (''00000'', chunk 0 5 100), (''05000'', chunk 5 5 101)],
      raws = [''00000'' \<mapsto> ''AA'', ''05000'' \<mapsto> ''BB'', ''10000'' \<mapsto> ''CC'',
              ''15000'' \<mapsto> ''DD'']\<rparr>"



text \<open>Two chunks that record the same start time.\<close>

definition dir_tie :: chunk_dir where
  "dir_tie =
     \<lparr>descs = [(''05000'', chunk 5 5 100), (''05001'', chunk 5 5 100)],
      raws = [''05000'' \<mapsto> ''AA'', ''05001'' \<mapsto> ''BB'']\<rparr>"




text \<open>An empty directory.\<close>

definition dir_empty :: chunk_dir where
  "dir_empty = \<lparr>descs = [], raws = Map.empty\<rparr>"

section \<open>Properties of the retention loop\<close>

lemma durs_simps [simp]: "durs [] = 0" "durs (p # ps) = prune_dur (snd p) + durs ps"
  by (simp_all add: durs_def)











subsection \<open>The deletion loop\<close>




lemma set_sorted_files [simp]: "set (sorted_files d) = set (descs d)"
  by (simp add: sorted_files_def)




subsection \<open>One run and two runs\<close>


lemma mset_visit_order [simp]: "mset (visit_order d) = mset (descs d)"
  by (simp add: visit_order_def sorted_files_def)

lemma set_visit_order [simp]: "set (visit_order d) = set (descs d)"
  by (simp add: visit_order_def)












section \<open>The claims about retention\<close>












section \<open>Properties of the extraction\<close>

lemma scan_loop_eq:
  "scan_loop st et ps acc =
     (if list_ex naive ps then Inl TypeError
      else Inr (acc @ map entry (filter (overlapping st et) ps)))"
proof (induction ps arbitrary: acc)
  case Nil
  then show ?case by simp
next
  case (Cons p ps)
  obtain s desc where p: "p = (s, desc)" by (cases p)
  show ?case
  proof (cases "parse_chunk desc")
    case None
    then show ?thesis by (simp add: p Cons.IH)
  next
    case (Some a)
    obtain ts dur where a: "a = (ts, dur)" by (cases a)
    show ?thesis
      by (cases ts) (simp_all add: p Some a Cons.IH)
  qed
qed

lemma selected_eq:
  "selected d st et =
     (if list_ex naive (descs d) then Inl TypeError
      else Inr (map entry (filter (overlapping st et) (descs d))))"
  by (simp add: selected_def scan_loop_eq)

lemma entry_mem:
  "(t, dur, s) \<in> set (map entry (filter (overlapping st et) ps)) \<longleftrightarrow>
     (\<exists>desc. (s, desc) \<in> set ps \<and> parse_chunk desc = Some (Aware t, dur)
        \<and> t \<le> et \<and> t + dur \<ge> st)"
proof
  assume "(t, dur, s) \<in> set (map entry (filter (overlapping st et) ps))"
  then obtain p where p: "p \<in> set ps" "overlapping st et p" "entry p = (t, dur, s)" by auto
  obtain s' desc where sd: "p = (s', desc)" by (cases p)
  have "s' = s \<and> parse_chunk desc = Some (Aware t, dur) \<and> t \<le> et \<and> t + dur \<ge> st"
  proof (cases "parse_chunk desc")
    case None
    with p(2) show ?thesis by (simp add: sd)
  next
    case (Some a)
    obtain ts x where a: "a = (ts, x)" by (cases a)
    show ?thesis using p(2,3) by (cases ts) (simp_all add: sd Some a)
  qed
  with p(1) sd show "\<exists>desc. (s, desc) \<in> set ps \<and> parse_chunk desc = Some (Aware t, dur)
        \<and> t \<le> et \<and> t + dur \<ge> st" by auto
next
  assume "\<exists>desc. (s, desc) \<in> set ps \<and> parse_chunk desc = Some (Aware t, dur)
        \<and> t \<le> et \<and> t + dur \<ge> st"
  then obtain desc where d: "(s, desc) \<in> set ps" "parse_chunk desc = Some (Aware t, dur)"
    "t \<le> et" "t + dur \<ge> st" by auto
  then have o: "overlapping st et (s, desc)" and e: "entry (s, desc) = (t, dur, s)" by simp_all
  from d(1) o have "(s, desc) \<in> set (filter (overlapping st et) ps)" by simp
  then have "entry (s, desc) \<in> entry ` set (filter (overlapping st et) ps)" by (rule imageI)
  then show "(t, dur, s) \<in> set (map entry (filter (overlapping st et) ps))"
    by (simp only: e set_map)
qed

lemma write_loop_all:
  "list_all (has_raw iq) ms \<Longrightarrow> write_loop iq ms fo = (Inr (), fo @ concat (map (raw_of iq) ms))"
proof (induction ms arbitrary: fo)
  case Nil
  then show ?case by simp
next
  case (Cons x ms)
  obtain t dur s where x: "x = (t, dur, s)" by (cases x)
  from Cons.prems obtain b where b: "iq s = Some b" by (auto simp: x has_raw_def)
  with Cons show ?case by (simp add: x raw_of_def)
qed

lemma filter_key_singleton:
  "distinct (map f zs) \<Longrightarrow> k \<in> set zs \<Longrightarrow> filter (\<lambda>x. f k = f x) zs = [k]"
proof (induction zs)
  case Nil
  then show ?case by simp
next
  case (Cons z zs)
  show ?case
  proof (cases "k = z")
    case True
    have "filter (\<lambda>x. f z = f x) zs = []"
      using Cons.prems(1) by (auto simp: filter_empty_conv)
    with True show ?thesis by simp
  next
    case False
    with Cons.prems have k: "k \<in> set zs" by simp
    then have "f k \<in> f ` set zs" by (rule imageI)
    moreover from Cons.prems(1) have "f z \<notin> f ` set zs" by simp
    ultimately have "f k \<noteq> f z" by metis
    with Cons k show ?thesis by simp
  qed
qed

lemma sort_key_perm:
  assumes "mset xs = mset ys" and "distinct (map f xs)"
  shows "sort_key f xs = sort_key f ys"
proof (rule properties_for_sort_key)
  show "mset (sort_key f ys) = mset xs" using assms(1) by simp
  show "sorted (map f (sort_key f ys))" by simp
  fix k assume k: "k \<in> set (sort_key f ys)"
  have "mset (map f (sort_key f ys)) = mset (map f xs)" using assms(1) by simp
  with assms(2) have dist: "distinct (map f (sort_key f ys))"
    by (simp add: mset_eq_imp_distinct_iff [of "map f (sort_key f ys)" "map f xs"])
  from k have kx: "k \<in> set xs" using mset_eq_setD [OF assms(1)] by simp
  show "filter (\<lambda>x. f k = f x) (sort_key f ys) = filter (\<lambda>x. f k = f x) xs"
    by (simp only: filter_key_singleton [OF dist k] filter_key_singleton [OF assms(2) kx])
qed


lemma list_all_sort_key [simp]: "list_all P (sort_key f xs) = list_all P xs"
  by (simp add: list_all_iff)



lemma extract_slice_out_file:
  assumes sel: "selected d (now + sr) (now + sr + du) = Inr found"
    and ne: "found \<noteq> []"
    and raws: "list_all (has_raw (raws d)) found"
  shows "out_file (extract_slice d now sr du nw)
           = Some (concat (map (raw_of (raws d)) (sort_key fst found)))"
proof -
  from ne have "sort_key fst found \<noteq> []" by (metis length_0_conv length_sort)
  then obtain t1 dur1 s1 rest where m: "sort_key fst found = (t1, dur1, s1) # rest"
    by (cases "sort_key fst found") auto
  from raws have "list_all (has_raw (raws d)) (sort_key fst found)" by simp
  then have w: "write_loop (raws d) ((t1, dur1, s1) # rest) []
                  = (Inr (), concat (map (raw_of (raws d)) ((t1, dur1, s1) # rest)))"
    unfolding m using write_loop_all [of "raws d" "(t1, dur1, s1) # rest" "[]"] by simp
  show ?thesis
    unfolding extract_slice_def Let_def sel
    by (simp only: sum.case list.case prod.case w m)
       (simp split: option.splits descriptor.splits)
qed

lemma selected_perm:
  assumes "mset ps' = mset ps" and "\<not> list_ex naive ps"
  shows "\<not> list_ex naive ps'"
    and "mset (map entry (filter P ps')) = mset (map entry (filter P ps))"
proof -
  from assms(1) have "set ps' = set ps" by (rule mset_eq_setD)
  with assms(2) show "\<not> list_ex naive ps'" by (simp add: list_ex_iff)
  show "mset (map entry (filter P ps')) = mset (map entry (filter P ps))"
    using assms(1) by simp
qed

section \<open>The claims about extraction\<close>





text \<open>
  C9. After a successful extraction the output descriptor carries the
  \<open>center_freq_hz\<close> and \<open>samp_rate_hz\<close> of a selected chunk whose start is the
  earliest of all selected chunks, and the relative window as it was requested
  (\<open>start_rel_s\<close>, \<open>duration_s\<close>); the resolved window is not recorded.
\<close>

theorem descriptor_of_earliest:
  assumes wf: "wf_dir d"
    and ok: "status (extract_slice d now start_rel_s dur_s now_written) = Inr ()"
  shows "\<exists>c found t dur s m.
           out_json (extract_slice d now start_rel_s dur_s now_written) = Some c
         \<and> selected d (now + start_rel_s) (now + start_rel_s + dur_s) = Inr found
         \<and> (t, dur, s) \<in> set found
         \<and> list_all (\<lambda>x. t \<le> fst x) found
         \<and> (s, Parsed m) \<in> set (descs d)
         \<and> timestamp_utc m = Some (Aware t)
         \<and> center_freq_hz m = Some (out_center_freq_hz c)
         \<and> samp_rate_hz m = Some (out_samp_rate_hz c)
         \<and> out_start_rel_s c = start_rel_s
         \<and> out_duration_s c = dur_s
         \<and> out_timestamp_utc c = now_written"
proof -
  let ?st = "now + start_rel_s" and ?et = "now + start_rel_s + dur_s"
  let ?r = "extract_slice d now start_rel_s dur_s now_written"
  from ok obtain found where sel: "selected d ?st ?et = Inr found"
    by (cases "selected d ?st ?et") (auto simp: extract_slice_def Let_def)
  from ok sel obtain t dur s rest where m: "sort_key fst found = (t, dur, s) # rest"
    by (cases "sort_key fst found") (auto simp: extract_slice_def Let_def)
  from ok sel m obtain fo where w: "write_loop (raws d) ((t, dur, s) # rest) [] = (Inr (), fo)"
    by (cases "write_loop (raws d) ((t, dur, s) # rest) []")
       (auto simp: extract_slice_def Let_def split: sum.splits)
  have r: "?r = (case map_of (descs d) s of
                          Some (Parsed first_meta) \<Rightarrow>
                            (case center_freq_hz first_meta of
                               None \<Rightarrow> \<lparr>status = Inl (KeyError ''center_freq_hz''),
                                          out_file = Some fo, out_json = None\<rparr>
                             | Some f \<Rightarrow>
                                 (case samp_rate_hz first_meta of
                                    None \<Rightarrow> \<lparr>status = Inl (KeyError ''samp_rate_hz''),
                                               out_file = Some fo, out_json = None\<rparr>
                                  | Some r \<Rightarrow>
                                      \<lparr>status = Inr (), out_file = Some fo,
                                       out_json = Some \<lparr>out_center_freq_hz = f,
                                         out_samp_rate_hz = r,
                                         out_timestamp_utc = now_written,
                                         out_start_rel_s = start_rel_s,
                                         out_duration_s = dur_s\<rparr>\<rparr>))
                        | Some Unreadable \<Rightarrow>
                            \<lparr>status = Inl ValueError, out_file = Some fo, out_json = None\<rparr>
                        | None \<Rightarrow>
                            \<lparr>status = Inl FileNotFoundError, out_file = Some fo,
                             out_json = None\<rparr>)"
    unfolding extract_slice_def Let_def sel
    by (simp only: sum.case list.case prod.case w m)
  from ok r obtain fm f r' where
    look: "map_of (descs d) s = Some (Parsed fm)"
    and cf: "center_freq_hz fm = Some f" and sr: "samp_rate_hz fm = Some r'"
    by (auto split: option.splits descriptor.splits)
  have c: "out_json ?r = Some \<lparr>out_center_freq_hz = f, out_samp_rate_hz = r',
              out_timestamp_utc = now_written, out_start_rel_s = start_rel_s,
              out_duration_s = dur_s\<rparr>"
    by (simp add: r look cf sr)
  have mem: "(t, dur, s) \<in> set found"
    using m by (metis list.set_intros(1) set_sort)
  have "sorted (map fst (sort_key fst found))" by simp
  then have "\<forall>x \<in> set (sort_key fst found). t \<le> fst x" unfolding m by auto
  then have least: "list_all (\<lambda>x. t \<le> fst x) found" by (simp add: list_all_iff)
  from sel have nn: "found = map entry (filter (overlapping ?st ?et) (descs d))"
    by (simp add: selected_eq split: if_splits)
  from mem obtain desc where desc: "(s, desc) \<in> set (descs d)"
      "parse_chunk desc = Some (Aware t, dur)"
    unfolding nn entry_mem by blast
  from wf desc(1) have "map_of (descs d) s = Some desc" by (simp add: wf_dir_def)
  with look have dp: "desc = Parsed fm" by simp
  from desc(2) have ts: "timestamp_utc fm = Some (Aware t)"
    by (auto simp: dp split: option.splits dur_field.splits)
  show ?thesis
    using c sel mem least desc(1) ts cf sr unfolding dp by force
qed

text \<open>
  In \<open>dir_ex\<close> the chunk at 0 seconds was captured at 100 Hz and the later ones at 101 Hz;
  the window from 3 to 12 is requested as 17 seconds back from the time 20, for 9 seconds.
\<close>

theorem descriptor_of_earliest_witness:
  "wf_dir dir_ex
   \<and> status (extract_slice dir_ex 20 (- 17) 9 21) = Inr ()
   \<and> out_json (extract_slice dir_ex 20 (- 17) 9 21)
       = Some \<lparr>out_center_freq_hz = 100, out_samp_rate_hz = 2400000, out_timestamp_utc = 21,
                out_start_rel_s = - 17, out_duration_s = 9\<rparr>
   \<and> (''00000'', chunk 0 5 100) \<in> set (descs dir_ex)
   \<and> (''05000'', chunk 5 5 101) \<in> set (descs dir_ex)"
proof -
  have wf: "wf_dir dir_ex" by (simp add: wf_dir_def dir_ex_def)
  have r: "extract_slice dir_ex 20 (- 17) 9 21
             = \<lparr>status = Inr (), out_file = Some ''AABBCC'',
                out_json = Some \<lparr>out_center_freq_hz = 100, out_samp_rate_hz = 2400000,
                  out_timestamp_utc = 21, out_start_rel_s = - 17, out_duration_s = 9\<rparr>\<rparr>"
    by (simp add: extract_slice_def selected_def dir_ex_def chunk_def)
  then have ok: "status (extract_slice dir_ex 20 (- 17) 9 21) = Inr ()" by simp
  from descriptor_of_earliest [OF wf ok] r wf show ?thesis
    by (simp add: dir_ex_def)
qed

text \<open>
  C3 (as amended). When every selected chunk has its raw file, the output is the
  concatenation of the whole raw files of the selected chunks in ascending order of
  start time (a stable sort of the enumeration order: chunks with equal start times
  stay in the order of enumeration). For selected chunks with pairwise distinct start
  times the output is the same for every enumeration order of the directory.
\<close>

theorem output_is_sorted_concatenation:
  assumes sel: "selected d (now + start_rel_s) (now + start_rel_s + dur_s) = Inr found"
    and ne: "found \<noteq> []"
    and raws: "list_all (has_raw (raws d)) found"
  shows "out_file (extract_slice d now start_rel_s dur_s now_written)
           = Some (concat (map (raw_of (raws d)) (sort_key fst found)))
       \<and> sorted (map fst (sort_key fst found))
       \<and> mset (sort_key fst found) = mset found
       \<and> (mset (descs d') = mset (descs d) \<and> raws d' = raws d \<and> distinct (map fst found)
            \<longrightarrow> out_file (extract_slice d' now start_rel_s dur_s now_written)
                  = out_file (extract_slice d now start_rel_s dur_s now_written))"
proof (intro conjI impI)
  let ?st = "now + start_rel_s" and ?et = "now + start_rel_s + dur_s"
  show out: "out_file (extract_slice d now start_rel_s dur_s now_written)
           = Some (concat (map (raw_of (raws d)) (sort_key fst found)))"
    using sel ne raws by (rule extract_slice_out_file)
  show "sorted (map fst (sort_key fst found))" by simp
  show "mset (sort_key fst found) = mset found" by simp
  assume a: "mset (descs d') = mset (descs d) \<and> raws d' = raws d \<and> distinct (map fst found)"
  from sel have nn: "\<not> list_ex naive (descs d)"
    and f: "found = map entry (filter (overlapping ?st ?et) (descs d))"
    by (simp_all add: selected_eq split: if_splits)
  let ?found' = "map entry (filter (overlapping ?st ?et) (descs d'))"
  from a have ms: "mset (descs d') = mset (descs d)" by simp
  have nn': "\<not> list_ex naive (descs d')" using ms nn by (rule selected_perm(1))
  have mf: "mset ?found' = mset found" unfolding f using ms nn by (rule selected_perm(2))
  from nn' have sel': "selected d' ?st ?et = Inr ?found'" by (simp add: selected_eq)
  from mf ne have ne': "?found' \<noteq> []" by (metis mset_zero_iff)
  from mf have "set ?found' = set found" by (rule mset_eq_setD)
  with raws a have raws': "list_all (has_raw (raws d')) ?found'" by (simp add: list_all_iff)
  from a have di: "distinct (map fst found)" by simp
  have "sort_key fst found = sort_key fst ?found'"
    using mf [symmetric] di by (rule sort_key_perm)
  then show "out_file (extract_slice d' now start_rel_s dur_s now_written)
               = out_file (extract_slice d now start_rel_s dur_s now_written)"
    using extract_slice_out_file [OF sel' ne' raws', of now_written] out a by simp
qed

text \<open>
  The claim as stated makes the output independent of the enumeration order for every
  set of selected chunks. The two chunks of \<open>dir_tie\<close> record the same start time, and the
  output follows the order in which the directory enumerates them.
\<close>

theorem output_is_sorted_concatenation_counterexample:
  "out_file (extract_slice dir_tie 20 (- 17) 9 21) = Some ''AABB''
   \<and> out_file (extract_slice (dir_tie\<lparr>descs := rev (descs dir_tie)\<rparr>) 20 (- 17) 9 21)
       = Some ''BBAA''"
  by (simp add: extract_slice_def selected_def dir_tie_def chunk_def)

text \<open>
  The window from 3 to 12 over \<open>dir_ex\<close>: the chunks at 0 and at 10 are written whole, so
  the output covers 0 to 15.
\<close>

theorem output_is_sorted_concatenation_witness:
  "selected dir_ex (20 + - 17) (20 + - 17 + 9)
     = Inr [(10, 5, ''10000''), (0, 5, ''00000''), (5, 5, ''05000'')]
   \<and> list_all (has_raw (raws dir_ex))
         [(10, 5, ''10000''), (0, 5, ''00000''), (5, 5, ''05000'')]
   \<and> sort_key fst [(10, 5, ''10000''), (0, 5, ''00000''), (5::rat, 5::rat, ''05000'')]
       = [(0, 5, ''00000''), (5, 5, ''05000''), (10, 5, ''10000'')]
   \<and> out_file (extract_slice dir_ex 20 (- 17) 9 21) = Some ''AABBCC''
   \<and> mset (descs (dir_ex\<lparr>descs := rev (descs dir_ex)\<rparr>)) = mset (descs dir_ex)
   \<and> distinct (map fst [(10, 5, ''10000''), (0, 5, ''00000''), (5::rat, 5::rat, ''05000'')])
   \<and> out_file (extract_slice (dir_ex\<lparr>descs := rev (descs dir_ex)\<rparr>) 20 (- 17) 9 21)
       = Some ''AABBCC''"
proof -
  let ?found = "[(10, 5, ''10000''), (0, 5, ''00000''), (5::rat, 5::rat, ''05000'')]"
  have sel: "selected dir_ex (20 + - 17) (20 + - 17 + 9) = Inr ?found"
    by (simp add: selected_def dir_ex_def chunk_def)
  have ne: "?found \<noteq> []" by simp
  have raws: "list_all (has_raw (raws dir_ex)) ?found"
    by (simp add: has_raw_def dir_ex_def)
  have srt: "sort_key fst ?found = [(0, 5, ''00000''), (5, 5, ''05000''), (10, 5, ''10000'')]"
    by simp
  have cat: "raw_of (raws dir_ex) (0, 5, ''00000'') @ raw_of (raws dir_ex) (5, 5, ''05000'')
               @ raw_of (raws dir_ex) (10, 5, ''10000'') = ''AABBCC''"
    by (simp add: raw_of_def dir_ex_def)
  have ms: "mset (descs (dir_ex\<lparr>descs := rev (descs dir_ex)\<rparr>)) = mset (descs dir_ex)"
    by simp
  have di: "distinct (map fst ?found)" by simp
  from output_is_sorted_concatenation
         [OF sel ne raws, of 21 "dir_ex\<lparr>descs := rev (descs dir_ex)\<rparr>"]
  have "out_file (extract_slice dir_ex 20 (- 17) 9 21) = Some ''AABBCC''"
    and "out_file (extract_slice (dir_ex\<lparr>descs := rev (descs dir_ex)\<rparr>) 20 (- 17) 9 21)
           = Some ''AABBCC''"
    using ms di by (simp_all add: srt cat)
  with sel raws srt ms di show ?thesis by (simp only: simp_thms)
qed













section \<open>The claim about the capture loop\<close>

lemma decimal_t0: "decimal 1000000 = ''1000000''"
  by (simp add: decimal.simps)

text \<open>
  C7. One iteration of the capture loop that starts at the wall-clock time 1000 and
  whose device read blocks for 5 seconds: the chunk is named after \<open>t0\<close> in
  milliseconds, 1000000, and its descriptor records the time 1005, read by
  \<open>utcnow_iso()\<close> after the samples have arrived, not \<open>t0\<close>.
\<close>

theorem capture_timestamp_after_read:
  "capture_iteration 100000000 2400000 60 5 5 ''IQ'' \<lparr>clock = 1000, outdir = dir_empty\<rparr>
     = \<lparr>clock = 1005,
        outdir = \<lparr>descs = [(''1000000'',
                     Parsed \<lparr>center_freq_hz = Some 100000000, samp_rate_hz = Some 2400000,
                             timestamp_utc = Some (Aware 1005), duration_s = DurValue 5,
                             dtype = Some ''complex64''\<rparr>)],
                   raws = [''1000000'' \<mapsto> ''IQ'']\<rparr>\<rparr>"
proof -
  have s: "str_int 1000000 = ''1000000''"
    by (simp add: str_int_def decimal_t0)
  let ?m = "Parsed \<lparr>center_freq_hz = Some 100000000, samp_rate_hz = Some 2400000,
                     timestamp_utc = Some (Aware 1005), duration_s = DurValue 5,
                     dtype = Some ''complex64''\<rparr>"
  let ?d1 = "\<lparr>descs = [(''1000000'', ?m)], raws = [''1000000'' \<mapsto> ''IQ'']\<rparr>"
  have w: "write_chunk ''1000000'' ''IQ'' ?m dir_empty = ?d1"
    by (simp add: write_chunk_def dir_empty_def)
  have k: "kept_stems ?d1 60 = [''1000000'']"
    by (simp add: kept_stems_def sorted_files_def)
  have p: "prune_seconds ?d1 60 = ?d1"
    by (simp add: prune_seconds_def Let_def k sorted_files_def)
  show ?thesis
    by (simp add: capture_iteration_def Let_def s py_int_def w p)
qed

end
